theory Spec2Isabelle
  imports Main "HOL-Library.Word" "HOL-Library.Sublist"
begin

section \<open>Payload handler (package process)\<close>

text \<open>
  The handler dispatches an upstream frame \<open>(payload, topic, version)\<close> on its topic.
  Byte slices are \<open>string\<close>s (a \<open>char\<close> is one byte). A Go \<open>error\<close> result is an
  \<open>error option\<close>, \<open>None\<close> being \<open>nil\<close>. Calls of the logger are not modelled: they
  change nothing the handler or its collaborators read.
\<close>

type_synonym bytes = string

datatype error =
    ErrNilDataProcessor
  | ErrInvalidPayloadType
  | ErrInvalidPayloadVersion
  | ErrDecode string

text \<open>
  \<open>DataProcessor\<close> is an interface of the package whose declaration is not among the
  sources; the handler calls three of its methods, each taking the marshalled bytes and
  returning an error. An implementation pushes the decoded event further (it has effects),
  so each method threads a state \<open>'st\<close>: everything a decoder may touch.
\<close>

record 'st DataProcessor =
  SaveBlock :: "bytes \<Rightarrow> 'st \<Rightarrow> error option \<times> 'st"
  RevertIndexedBlock :: "bytes \<Rightarrow> 'st \<Rightarrow> error option \<times> 'st"
  FinalizedBlock :: "bytes \<Rightarrow> 'st \<Rightarrow> error option \<times> 'st"

record ('m, 'st) payloadHandler =
  marshaller :: 'm
  dp :: "string \<rightharpoonup> 'st DataProcessor"

text \<open>
  The topic constants belong to the upstream library (\<open>outport\<close>); their values are the
  strings fixed by the upstream contract.
\<close>

definition TopicSaveBlock :: string where
  "TopicSaveBlock = ''SaveBlock''"

definition TopicRevertIndexedBlock :: string where
  "TopicRevertIndexedBlock = ''RevertIndexedBlock''"

definition TopicSaveRoundsInfo :: string where
  "TopicSaveRoundsInfo = ''SaveRoundsInfo''"

definition TopicSaveValidatorsRating :: string where
  "TopicSaveValidatorsRating = ''SaveValidatorsRating''"

definition TopicSaveValidatorsPubKeys :: string where
  "TopicSaveValidatorsPubKeys = ''SaveValidatorsPubKeys''"

definition TopicSaveAccounts :: string where
  "TopicSaveAccounts = ''SaveAccounts''"

definition TopicFinalizedBlock :: string where
  "TopicFinalizedBlock = ''FinalizedBlock''"

definition saveBlock ::
  "('m, 'st) payloadHandler \<Rightarrow> bytes \<Rightarrow> string \<Rightarrow> 'st \<Rightarrow> error option \<times> 'st" where
  "saveBlock ph marshalledData version st =
     (case dp ph version of
        None \<Rightarrow> (Some ErrInvalidPayloadType, st)
      | Some dataProcessor \<Rightarrow> SaveBlock dataProcessor marshalledData st)"

definition revertIndexedBlock ::
  "('m, 'st) payloadHandler \<Rightarrow> bytes \<Rightarrow> string \<Rightarrow> 'st \<Rightarrow> error option \<times> 'st" where
  "revertIndexedBlock ph marshalledData version st =
     (case dp ph version of
        None \<Rightarrow> (Some ErrInvalidPayloadType, st)
      | Some dataProcessor \<Rightarrow> RevertIndexedBlock dataProcessor marshalledData st)"

definition finalizedBlock ::
  "('m, 'st) payloadHandler \<Rightarrow> bytes \<Rightarrow> string \<Rightarrow> 'st \<Rightarrow> error option \<times> 'st" where
  "finalizedBlock ph marshalledData version st =
     (case dp ph version of
        None \<Rightarrow> (Some ErrInvalidPayloadType, st)
      | Some dataProcessor \<Rightarrow> FinalizedBlock dataProcessor marshalledData st)"

definition saveRounds ::
  "('m, 'st) payloadHandler \<Rightarrow> bytes \<Rightarrow> string \<Rightarrow> 'st \<Rightarrow> error option \<times> 'st" where
  "saveRounds ph marshalledData version st = (None, st)"

definition saveValidatorsRating ::
  "('m, 'st) payloadHandler \<Rightarrow> bytes \<Rightarrow> string \<Rightarrow> 'st \<Rightarrow> error option \<times> 'st" where
  "saveValidatorsRating ph marshalledData version st = (None, st)"

definition saveValidatorsPubKeys ::
  "('m, 'st) payloadHandler \<Rightarrow> bytes \<Rightarrow> string \<Rightarrow> 'st \<Rightarrow> error option \<times> 'st" where
  "saveValidatorsPubKeys ph marshalledData version st = (None, st)"

definition saveAccounts ::
  "('m, 'st) payloadHandler \<Rightarrow> bytes \<Rightarrow> string \<Rightarrow> 'st \<Rightarrow> error option \<times> 'st" where
  "saveAccounts ph marshalledData version st = (None, st)"

text \<open>
  \<open>initActionsMap\<close> fills the field \<open>actions\<close> with the handler's own methods, keyed by
  topic; the field is the function \<open>actions\<close> of the handler here.
\<close>

definition actions ::
  "('m, 'st) payloadHandler \<Rightarrow> string \<rightharpoonup> (bytes \<Rightarrow> string \<Rightarrow> 'st \<Rightarrow> error option \<times> 'st)" where
  "actions ph =
     [TopicSaveBlock \<mapsto> saveBlock ph,
      TopicRevertIndexedBlock \<mapsto> revertIndexedBlock ph,
      TopicSaveRoundsInfo \<mapsto> saveRounds ph,
      TopicSaveValidatorsRating \<mapsto> saveValidatorsRating ph,
      TopicSaveValidatorsPubKeys \<mapsto> saveValidatorsPubKeys ph,
      TopicSaveAccounts \<mapsto> saveAccounts ph,
      TopicFinalizedBlock \<mapsto> finalizedBlock ph]"

definition ProcessPayload ::
  "('m, 'st) payloadHandler \<Rightarrow> bytes \<Rightarrow> string \<Rightarrow> string \<Rightarrow> 'st \<Rightarrow> error option \<times> 'st" where
  "ProcessPayload ph payload topic version st =
     (case actions ph topic of
        None \<Rightarrow> (None, st)
      | Some payloadTypeAction \<Rightarrow> payloadTypeAction payload version st)"

section \<open>Hub (package hub)\<close>

subsection \<open>Data of the packages data and dispatcher\<close>

text \<open>
  Modelled from the spec: the declarations of \<open>data.Event\<close>, \<open>data.BlockEvents\<close>,
  \<open>data.RevertBlock\<close>, \<open>data.FinalizedBlock\<close>, of the subscription records and of the
  interface \<open>dispatcher.EventDispatcher\<close> are not among the sources; the data model of
  the specification gives their fields. A \<open>uuid.UUID\<close> is 128 bits.
\<close>

type_synonym uuid = "128 word"

record data_Event =
  Address :: string
  Identifier :: string
  Topics :: "bytes list"
  Data :: bytes
  TxHash :: string

record data_BlockEvents =
  Hash :: string
  ShardID :: int
  Timestamp :: int
  Events :: "data_Event list"

record data_RevertBlock =
  Hash :: string
  Nonce :: int
  Round :: int
  Epoch :: int

record data_FinalizedBlock =
  Hash :: string

text \<open>
  The event type written "ALL" is the constructor \<open>ALL_EVENTS\<close>. An absent field of a
  subscription entry (a wildcard) is \<open>None\<close>.
\<close>

datatype eventType = ALL_EVENTS | BLOCK_EVENTS | REVERT_EVENTS | FINALIZED_EVENTS

record SubscriptionEntry =
  Address :: "string option"
  Identifier :: "string option"
  Topics :: "bytes list"
  EventType :: eventType

record Subscription =
  DispatcherID :: uuid
  entry :: SubscriptionEntry

record SubscribeEvent =
  DispatcherID :: uuid
  SubscriptionEntries :: "SubscriptionEntry list"

text \<open>
  Modelled from the spec: the hub calls \<open>GetID\<close> and \<open>PushEvents\<close> of an
  \<open>EventDispatcher\<close>; the dispatcher contract of the specification has \<open>pushRevert\<close>,
  \<open>pushFinalized\<close> and \<open>close\<close> as well. A dispatcher is its id and the log of the
  calls made on it, oldest first.
\<close>

datatype dispatcher_call =
    CallPushEvents "data_Event list"
  | CallPushRevert data_RevertBlock
  | CallPushFinalized data_FinalizedBlock
  | CallClose

record EventDispatcher =
  GetID :: uuid
  calls :: "dispatcher_call list"

definition PushEvents :: "EventDispatcher \<Rightarrow> data_Event list \<Rightarrow> EventDispatcher" where
  "PushEvents d events = d\<lparr>calls := calls d @ [CallPushEvents events]\<rparr>"

subsection \<open>Subscription mapper\<close>

text \<open>
  Modelled from the spec: \<open>dispatcher.SubscriptionMapper\<close> and its methods
  \<open>MatchSubscribeEvent\<close>, \<open>Subscriptions\<close> and \<open>RemoveSubscriptions\<close> are not among the
  sources. The specification gives the mapper two indices, \<open>byDispatcher\<close> and \<open>all\<close>:
  \<open>matchSubscribeEvent\<close> appends each entry as a subscription under the given
  dispatcher id, an entry the dispatcher already holds being left alone;
  \<open>subscriptions\<close> returns a snapshot of \<open>all\<close>; \<open>removeSubscriptions\<close> deletes every
  subscription of the id from both indices.
\<close>

record SubscriptionMapper =
  byDispatcher :: "uuid \<rightharpoonup> Subscription list"
  all_subs :: "Subscription list"

definition NewSubscriptionMapper :: SubscriptionMapper where
  "NewSubscriptionMapper = \<lparr>byDispatcher = Map.empty, all_subs = []\<rparr>"

definition subscriptionsFor :: "SubscriptionMapper \<Rightarrow> uuid \<Rightarrow> Subscription list" where
  "subscriptionsFor m dispatcherID = (case byDispatcher m dispatcherID of None \<Rightarrow> [] | Some ss \<Rightarrow> ss)"

definition addSubscription :: "SubscriptionMapper \<Rightarrow> Subscription \<Rightarrow> SubscriptionMapper" where
  "addSubscription m s =
     (if s \<in> set (subscriptionsFor m (Subscription.DispatcherID s)) then m
      else m\<lparr>byDispatcher := (byDispatcher m)(Subscription.DispatcherID s \<mapsto>
                 subscriptionsFor m (Subscription.DispatcherID s) @ [s]),
             all_subs := all_subs m @ [s]\<rparr>)"

fun addEntries :: "SubscriptionMapper \<Rightarrow> uuid \<Rightarrow> SubscriptionEntry list \<Rightarrow> SubscriptionMapper" where
  "addEntries m dispatcherID [] = m"
| "addEntries m dispatcherID (e # es) =
     addEntries (addSubscription m \<lparr>Subscription.DispatcherID = dispatcherID, entry = e\<rparr>) dispatcherID es"

definition MatchSubscribeEvent :: "SubscriptionMapper \<Rightarrow> SubscribeEvent \<Rightarrow> SubscriptionMapper" where
  "MatchSubscribeEvent m event =
     addEntries m (SubscribeEvent.DispatcherID event) (SubscriptionEntries event)"

definition Subscriptions :: "SubscriptionMapper \<Rightarrow> Subscription list" where
  "Subscriptions m = all_subs m"

definition RemoveSubscriptions :: "SubscriptionMapper \<Rightarrow> uuid \<Rightarrow> SubscriptionMapper" where
  "RemoveSubscriptions m dispatcherID =
     m\<lparr>byDispatcher := (byDispatcher m)(dispatcherID := None),
       all_subs := filter (\<lambda>s. Subscription.DispatcherID s \<noteq> dispatcherID) (all_subs m)\<rparr>"

subsection \<open>Event filter\<close>

text \<open>
  In the source the filter is an interface value held by the hub, so the hub below takes
  any predicate. Modelled from the spec: the package \<open>filters\<close> is not among the sources;
  \<open>MatchEvent\<close> follows the matching rules of the specification and serves as the filter
  of the examples.
\<close>

definition MatchEvent :: "Subscription \<Rightarrow> data_Event \<Rightarrow> bool" where
  "MatchEvent s e =
     (let en = entry s in
      if EventType en \<noteq> ALL_EVENTS \<and> EventType en \<noteq> BLOCK_EVENTS then False
      else if (case SubscriptionEntry.Address en of None \<Rightarrow> False
               | Some a \<Rightarrow> a \<noteq> data_Event.Address e) then False
      else if (case SubscriptionEntry.Identifier en of None \<Rightarrow> False
               | Some i \<Rightarrow> i \<noteq> data_Event.Identifier e) then False
      else list_all (\<lambda>t. t \<in> set (data_Event.Topics e)) (SubscriptionEntry.Topics en))"

subsection \<open>The hub\<close>

text \<open>
  The hub's fields that hold state: the filter, the mapper and the dispatcher map. The
  mutex guards the map and the five channels carry the messages of \<open>run\<close>; neither holds
  state of its own here. Dispatchers are kept by value, each with its call log.
\<close>

record commonHub =
  filter_hub :: "Subscription \<Rightarrow> data_Event \<Rightarrow> bool"
  subscriptionMapper :: SubscriptionMapper
  dispatchers :: "uuid \<rightharpoonup> EventDispatcher"

definition NewCommonHub :: "(Subscription \<Rightarrow> data_Event \<Rightarrow> bool) \<Rightarrow> commonHub" where
  "NewCommonHub eventFilter =
     \<lparr>filter_hub = eventFilter,
      subscriptionMapper = NewSubscriptionMapper,
      dispatchers = Map.empty\<rparr>"

definition Subscribe :: "commonHub \<Rightarrow> SubscribeEvent \<Rightarrow> commonHub" where
  "Subscribe wh event =
     wh\<lparr>subscriptionMapper := MatchSubscribeEvent (subscriptionMapper wh) event\<rparr>"

text \<open>
  \<open>handleBroadcast\<close>. Reading a key that a Go map does not hold gives the nil slice, and
  \<open>append\<close> on it starts a new list.
\<close>

definition mapEventToDispatcher ::
  "(uuid \<rightharpoonup> data_Event list) \<Rightarrow> uuid \<Rightarrow> data_Event \<Rightarrow> (uuid \<rightharpoonup> data_Event list)" where
  "mapEventToDispatcher dispatchersMap dispatcherID e =
     dispatchersMap(dispatcherID \<mapsto> (case dispatchersMap dispatcherID of None \<Rightarrow> [] | Some es \<Rightarrow> es) @ [e])"

text \<open>The inner loop, over the subscriptions, for one event.\<close>

fun subscriptionsLoop ::
  "(Subscription \<Rightarrow> data_Event \<Rightarrow> bool) \<Rightarrow> data_Event \<Rightarrow> Subscription list \<Rightarrow>
   (uuid \<rightharpoonup> data_Event list) \<Rightarrow> (uuid \<rightharpoonup> data_Event list)" where
  "subscriptionsLoop f event [] dispatchersMap = dispatchersMap"
| "subscriptionsLoop f event (subscription # rest) dispatchersMap =
     subscriptionsLoop f event rest
       (if f subscription event
        then mapEventToDispatcher dispatchersMap (Subscription.DispatcherID subscription) event
        else dispatchersMap)"

text \<open>The outer loop, over the events of the batch.\<close>

fun eventsLoop ::
  "(Subscription \<Rightarrow> data_Event \<Rightarrow> bool) \<Rightarrow> Subscription list \<Rightarrow> data_Event list \<Rightarrow>
   (uuid \<rightharpoonup> data_Event list) \<Rightarrow> (uuid \<rightharpoonup> data_Event list)" where
  "eventsLoop f subscriptions [] dispatchersMap = dispatchersMap"
| "eventsLoop f subscriptions (event # rest) dispatchersMap =
     eventsLoop f subscriptions rest (subscriptionsLoop f event subscriptions dispatchersMap)"

text \<open>
  The last loop ranges over \<open>dispatchersMap\<close>: every key once, in an order Go leaves
  open. One iteration looks the key up in the hub's map and pushes the key's list when a
  dispatcher is found. \<open>pushRange\<close> is the loop over the keys in a given order;
  \<open>pushAll\<close> is its result entry by entry, which no order changes (lemma
  \<open>pushRange_any_order\<close>).
\<close>

definition pushOne ::
  "(uuid \<rightharpoonup> data_Event list) \<Rightarrow> uuid \<Rightarrow> (uuid \<rightharpoonup> EventDispatcher) \<Rightarrow> (uuid \<rightharpoonup> EventDispatcher)" where
  "pushOne dispatchersMap dispatcherID ds =
     (case dispatchersMap dispatcherID of
        None \<Rightarrow> ds
      | Some eventValues \<Rightarrow>
          (case ds dispatcherID of None \<Rightarrow> ds | Some d \<Rightarrow> ds(dispatcherID \<mapsto> PushEvents d eventValues)))"

fun pushRange ::
  "(uuid \<rightharpoonup> data_Event list) \<Rightarrow> uuid list \<Rightarrow> (uuid \<rightharpoonup> EventDispatcher) \<Rightarrow> (uuid \<rightharpoonup> EventDispatcher)" where
  "pushRange dispatchersMap [] ds = ds"
| "pushRange dispatchersMap (dispatcherID # ids) ds = pushRange dispatchersMap ids (pushOne dispatchersMap dispatcherID ds)"

definition pushAll ::
  "(uuid \<rightharpoonup> data_Event list) \<Rightarrow> (uuid \<rightharpoonup> EventDispatcher) \<Rightarrow> (uuid \<rightharpoonup> EventDispatcher)" where
  "pushAll dispatchersMap ds =
     (\<lambda>dispatcherID. case ds dispatcherID of
              None \<Rightarrow> None
            | Some d \<Rightarrow>
                (case dispatchersMap dispatcherID of
                   None \<Rightarrow> Some d
                 | Some eventValues \<Rightarrow> Some (PushEvents d eventValues)))"

definition handleBroadcast :: "commonHub \<Rightarrow> data_BlockEvents \<Rightarrow> commonHub" where
  "handleBroadcast wh blockEvents =
     (let subscriptions = Subscriptions (subscriptionMapper wh);
          dispatchersMap = eventsLoop (filter_hub wh) subscriptions (Events blockEvents) Map.empty
      in wh\<lparr>dispatchers := pushAll dispatchersMap (dispatchers wh)\<rparr>)"

definition handleRevertBroadcast :: "commonHub \<Rightarrow> data_RevertBlock \<Rightarrow> commonHub" where
  "handleRevertBroadcast wh revertBlock = wh"

definition handleFinalizedBroadcast :: "commonHub \<Rightarrow> data_FinalizedBlock \<Rightarrow> commonHub" where
  "handleFinalizedBroadcast wh finalizedBlockMsg = wh"

definition registerDispatcher :: "commonHub \<Rightarrow> EventDispatcher \<Rightarrow> commonHub" where
  "registerDispatcher wh d =
     (case dispatchers wh (GetID d) of
        Some _ \<Rightarrow> wh
      | None \<Rightarrow> wh\<lparr>dispatchers := (dispatchers wh)(GetID d \<mapsto> d)\<rparr>)"

text \<open>
  \<open>unregisterDispatcher\<close> returns the hub and the dispatcher it was given, as the call
  leaves them: the source calls \<open>GetID\<close> on the dispatcher and nothing else.
\<close>

definition unregisterDispatcher :: "commonHub \<Rightarrow> EventDispatcher \<Rightarrow> commonHub \<times> EventDispatcher" where
  "unregisterDispatcher wh d =
     (let wh1 = (case dispatchers wh (GetID d) of
                   Some _ \<Rightarrow> wh\<lparr>dispatchers := (dispatchers wh)(GetID d := None)\<rparr>
                 | None \<Rightarrow> wh)
      in (wh1\<lparr>subscriptionMapper := RemoveSubscriptions (subscriptionMapper wh1) (GetID d)\<rparr>, d))"

text \<open>
  The loop of \<open>run\<close>: each turn of the \<open>select\<close> takes one message from one of the
  channels, or sees the context cancelled and returns. The messages the loop selects,
  in order, are the list it runs over.
\<close>

datatype selected =
    CtxDone
  | FromBroadcast data_BlockEvents
  | FromBroadcastRevert data_RevertBlock
  | FromBroadcastFinalized data_FinalizedBlock
  | FromRegister EventDispatcher
  | FromUnregister EventDispatcher

fun run :: "commonHub \<Rightarrow> selected list \<Rightarrow> commonHub" where
  "run wh [] = wh"
| "run wh (CtxDone # rest) = wh"
| "run wh (FromBroadcast events # rest) = run (handleBroadcast wh events) rest"
| "run wh (FromBroadcastRevert revertEvent # rest) = run (handleRevertBroadcast wh revertEvent) rest"
| "run wh (FromBroadcastFinalized finalizedEvent # rest) =
     run (handleFinalizedBroadcast wh finalizedEvent) rest"
| "run wh (FromRegister dispatcherClient # rest) = run (registerDispatcher wh dispatcherClient) rest"
| "run wh (FromUnregister dispatcherClient # rest) =
     run (fst (unregisterDispatcher wh dispatcherClient)) rest"

section \<open>Publisher (package rabbitmq)\<close>

text \<open>
  The configuration record belongs to the package \<open>config\<close>, which is not among the
  sources; the publisher reads its three exchange names. \<open>RabbitMqClient\<close> is an
  interface with the method \<open>Publish\<close>: a client is the log of the \<open>Publish\<close> calls made
  on it and the error it answers each call with. \<open>json.Marshal\<close> is the standard
  library's; the publisher handles its failure, so it is a parameter returning either an
  error text or the bytes.
\<close>

record RabbitMQConfig =
  Url :: string
  EventsExchange :: string
  RevertEventsExchange :: string
  FinalizedEventsExchange :: string

record amqp_Publishing =
  Body :: bytes

record publish_call =
  exchange :: string
  key :: string
  mandatory :: bool
  immediate :: bool
  msg :: amqp_Publishing

record RabbitMqClient =
  published :: "publish_call list"
  answer :: "publish_call \<Rightarrow> string option"

definition Publish ::
  "RabbitMqClient \<Rightarrow> string \<Rightarrow> string \<Rightarrow> bool \<Rightarrow> bool \<Rightarrow> amqp_Publishing \<Rightarrow>
   string option \<times> RabbitMqClient" where
  "Publish c exchangeName routingKey isMandatory isImmediate message =
     (let call = \<lparr>exchange = exchangeName, key = routingKey, mandatory = isMandatory,
                  immediate = isImmediate, msg = message\<rparr>
      in (answer c call, c\<lparr>published := published c @ [call]\<rparr>))"

record rabbitMqPublisher =
  client :: RabbitMqClient
  cfg :: RabbitMQConfig

definition emptyStr :: string where
  "emptyStr = ''''"

definition publishFanout ::
  "rabbitMqPublisher \<Rightarrow> string \<Rightarrow> bytes \<Rightarrow> string option \<times> rabbitMqPublisher" where
  "publishFanout rp exchangeName payload =
     (case Publish (client rp) exchangeName emptyStr True False \<lparr>Body = payload\<rparr> of
        (err, c) \<Rightarrow> (err, rp\<lparr>client := c\<rparr>))"

definition publishToExchanges ::
  "(data_BlockEvents \<Rightarrow> string + bytes) \<Rightarrow> rabbitMqPublisher \<Rightarrow> data_BlockEvents \<Rightarrow>
   rabbitMqPublisher" where
  "publishToExchanges json_Marshal rp events =
     (if EventsExchange (cfg rp) \<noteq> '''' then
        (case json_Marshal events of
           Inl err \<Rightarrow> rp
         | Inr eventsBytes \<Rightarrow> snd (publishFanout rp (EventsExchange (cfg rp)) eventsBytes))
      else rp)"

definition publishRevertToExchange ::
  "(data_RevertBlock \<Rightarrow> string + bytes) \<Rightarrow> rabbitMqPublisher \<Rightarrow> data_RevertBlock \<Rightarrow>
   rabbitMqPublisher" where
  "publishRevertToExchange json_Marshal rp revertBlock =
     (if RevertEventsExchange (cfg rp) \<noteq> '''' then
        (case json_Marshal revertBlock of
           Inl err \<Rightarrow> rp
         | Inr revertBlockBytes \<Rightarrow>
             snd (publishFanout rp (RevertEventsExchange (cfg rp)) revertBlockBytes))
      else rp)"

definition publishFinalizedToExchange ::
  "(data_FinalizedBlock \<Rightarrow> string + bytes) \<Rightarrow> rabbitMqPublisher \<Rightarrow> data_FinalizedBlock \<Rightarrow>
   rabbitMqPublisher" where
  "publishFinalizedToExchange json_Marshal rp finalizedBlockMsg =
     (if FinalizedEventsExchange (cfg rp) \<noteq> '''' then
        (case json_Marshal finalizedBlockMsg of
           Inl err \<Rightarrow> rp
         | Inr finalizedBlockBytes \<Rightarrow>
             snd (publishFanout rp (FinalizedEventsExchange (cfg rp)) finalizedBlockBytes))
      else rp)"

section \<open>Definitions for the statements\<close>

text \<open>
  The per-dispatcher list as the specification words it: one copy of the event for each
  pair of a subscription and an event of the batch such that the subscription belongs
  to the dispatcher and the filter matches, the pairs taken event by event and, for one
  event, subscription by subscription. It is compared with the list the loops of
  \<open>handleBroadcast\<close> build.
\<close>

definition matchedCopies ::
  "(Subscription \<Rightarrow> data_Event \<Rightarrow> bool) \<Rightarrow> Subscription list \<Rightarrow> uuid \<Rightarrow> data_Event list \<Rightarrow> data_Event list" where
  "matchedCopies f subscriptions dispatcherID events =
     concat (map (\<lambda>e. map (\<lambda>s. e)
        (filter (\<lambda>s. Subscription.DispatcherID s = dispatcherID \<and> f s e) subscriptions)) events)"

text \<open>The number of a dispatcher's subscriptions that match one event.\<close>

definition copiesFor ::
  "(Subscription \<Rightarrow> data_Event \<Rightarrow> bool) \<Rightarrow> Subscription list \<Rightarrow> uuid \<Rightarrow> data_Event \<Rightarrow> nat" where
  "copiesFor f subs k e = length (filter (\<lambda>s. Subscription.DispatcherID s = k \<and> f s e) subs)"

text \<open>The list a map of slices holds under a key, the nil slice for a key it lacks.\<close>

definition slice_of :: "(uuid \<rightharpoonup> data_Event list) \<Rightarrow> uuid \<Rightarrow> data_Event list" where
  "slice_of dm k = (case dm k of None \<Rightarrow> [] | Some es \<Rightarrow> es)"

section \<open>Example states\<close>

text \<open>
  Decoders for the examples: a decoder records its version, its method and the bytes it
  was given in the state, a list of such calls, and succeeds.
\<close>

definition recordingProcessor :: "string \<Rightarrow> (string \<times> string \<times> bytes) list DataProcessor" where
  "recordingProcessor v =
     \<lparr>SaveBlock = (\<lambda>b st. (None, st @ [(v, ''SaveBlock'', b)])),
      RevertIndexedBlock = (\<lambda>b st. (None, st @ [(v, ''RevertIndexedBlock'', b)])),
      FinalizedBlock = (\<lambda>b st. (None, st @ [(v, ''FinalizedBlock'', b)]))\<rparr>"

definition handlerV1V2 :: "(unit, (string \<times> string \<times> bytes) list) payloadHandler" where
  "handlerV1V2 =
     \<lparr>marshaller = (),
      dp = [''v1'' \<mapsto> recordingProcessor ''v1'', ''v2'' \<mapsto> recordingProcessor ''v2'']\<rparr>"

text \<open>
  A subscription entry with every field a wildcard, a dispatcher nothing was called on,
  and hubs built with the hub's own operations.
\<close>

definition entryOf :: "eventType \<Rightarrow> SubscriptionEntry" where
  "entryOf t = \<lparr>Address = None, Identifier = None, Topics = [], EventType = t\<rparr>"

definition dispatcherWithID :: "uuid \<Rightarrow> EventDispatcher" where
  "dispatcherWithID k = \<lparr>GetID = k, calls = []\<rparr>"

text \<open>
  Dispatchers 1, 2 and 3 registered; 1 subscribed to revert events, 2 to block events,
  3 to finalized events and to everything.
\<close>

definition hubS5 :: commonHub where
  "hubS5 =
     Subscribe (Subscribe (Subscribe
       (run (NewCommonHub MatchEvent)
          [FromRegister (dispatcherWithID 1), FromRegister (dispatcherWithID 2),
           FromRegister (dispatcherWithID 3)])
       \<lparr>DispatcherID = 1, SubscriptionEntries = [entryOf REVERT_EVENTS]\<rparr>)
       \<lparr>DispatcherID = 2, SubscriptionEntries = [entryOf BLOCK_EVENTS]\<rparr>)
       \<lparr>DispatcherID = 3, SubscriptionEntries = [entryOf FINALIZED_EVENTS, entryOf ALL_EVENTS]\<rparr>"

definition revertAA :: data_RevertBlock where
  "revertAA = \<lparr>data_RevertBlock.Hash = ''0xaa'', Nonce = 1, Round = 1, Epoch = 0\<rparr>"

definition finalizedAA :: data_FinalizedBlock where
  "finalizedAA = \<lparr>Hash = ''0xaa''\<rparr>"

text \<open>An id that subscribed and never registered.\<close>

definition hubSubscribedOnly :: commonHub where
  "hubSubscribedOnly =
     Subscribe (NewCommonHub MatchEvent)
       \<lparr>DispatcherID = 7, SubscriptionEntries = [entryOf ALL_EVENTS]\<rparr>"

text \<open>One registered dispatcher.\<close>

definition hubOne :: commonHub where
  "hubOne = run (NewCommonHub MatchEvent) [FromRegister (dispatcherWithID 1)]"

text \<open>
  Two events of one batch, and a hub where dispatcher 1 holds two subscriptions that
  both match the first event.
\<close>

definition eventX :: data_Event where
  "eventX = \<lparr>data_Event.Address = ''erd1x'', Identifier = ''transfer'', Topics = [''T1''], Data = ''0x01'',
     TxHash = ''0xtx''\<rparr>"

definition eventY :: data_Event where
  "eventY = \<lparr>data_Event.Address = ''erd1y'', Identifier = ''transfer'', Topics = [''T3''], Data = ''0x02'',
     TxHash = ''0xty''\<rparr>"

definition batchXY :: data_BlockEvents where
  "batchXY = \<lparr>data_BlockEvents.Hash = ''0xaa'', ShardID = 0, Timestamp = 0, Events = [eventX, eventY]\<rparr>"

definition hubOverlap :: commonHub where
  "hubOverlap =
     Subscribe (Subscribe
       (run (NewCommonHub MatchEvent)
          [FromRegister (dispatcherWithID 1), FromRegister (dispatcherWithID 2)])
       \<lparr>DispatcherID = 1,
        SubscriptionEntries = [entryOf ALL_EVENTS, (entryOf BLOCK_EVENTS)\<lparr>Address := Some ''erd1x''\<rparr>]\<rparr>)
       \<lparr>DispatcherID = 2,
        SubscriptionEntries = [(entryOf ALL_EVENTS)\<lparr>Address := Some ''erd1y''\<rparr>]\<rparr>"

text \<open>
  A publisher with the revert stream disabled, and a stand-in for the encoder that
  writes the hash of a message.
\<close>

definition hashBody :: "string \<Rightarrow> string + bytes" where
  "hashBody h = Inr (''{hash:'' @ h @ ''}'')"

definition publisherTwoStreams :: rabbitMqPublisher where
  "publisherTwoStreams =
     \<lparr>client = \<lparr>published = [], answer = (\<lambda>call. None)\<rparr>,
      cfg = \<lparr>Url = ''amqp://localhost'', EventsExchange = ''all_events'',
             RevertEventsExchange = '''', FinalizedEventsExchange = ''finalized_events''\<rparr>\<rparr>"

section \<open>Properties of the payload handler\<close>

lemmas Topic_defs =
  TopicSaveBlock_def TopicRevertIndexedBlock_def TopicSaveRoundsInfo_def
  TopicSaveValidatorsRating_def TopicSaveValidatorsPubKeys_def TopicSaveAccounts_def
  TopicFinalizedBlock_def

lemma actions_decoded:
  "actions ph TopicSaveBlock = Some (saveBlock ph)"
  "actions ph TopicRevertIndexedBlock = Some (revertIndexedBlock ph)"
  "actions ph TopicFinalizedBlock = Some (finalizedBlock ph)"
  by (simp_all add: actions_def Topic_defs)

lemma actions_noop:
  "actions ph TopicSaveRoundsInfo = Some (saveRounds ph)"
  "actions ph TopicSaveValidatorsRating = Some (saveValidatorsRating ph)"
  "actions ph TopicSaveValidatorsPubKeys = Some (saveValidatorsPubKeys ph)"
  "actions ph TopicSaveAccounts = Some (saveAccounts ph)"
  by (simp_all add: actions_def Topic_defs)

lemma actions_unknown:
  assumes "topic \<notin> {TopicSaveBlock, TopicRevertIndexedBlock, TopicSaveRoundsInfo,
     TopicSaveValidatorsRating, TopicSaveValidatorsPubKeys, TopicSaveAccounts,
     TopicFinalizedBlock}"
  shows "actions ph topic = None"
  using assms by (simp add: actions_def)

lemma unknown_version_decoded_topics:
  assumes "dp ph version = None"
  shows "ProcessPayload ph payload TopicSaveBlock version st = (Some ErrInvalidPayloadType, st)"
    and "ProcessPayload ph payload TopicRevertIndexedBlock version st = (Some ErrInvalidPayloadType, st)"
    and "ProcessPayload ph payload TopicFinalizedBlock version st = (Some ErrInvalidPayloadType, st)"
  using assms
  by (simp_all add: ProcessPayload_def actions_decoded saveBlock_def revertIndexedBlock_def
      finalizedBlock_def)

lemma known_version_decoded_topics:
  assumes "dp ph version = Some p"
  shows "ProcessPayload ph payload TopicSaveBlock version st = SaveBlock p payload st"
    and "ProcessPayload ph payload TopicRevertIndexedBlock version st = RevertIndexedBlock p payload st"
    and "ProcessPayload ph payload TopicFinalizedBlock version st = FinalizedBlock p payload st"
  using assms
  by (simp_all add: ProcessPayload_def actions_decoded saveBlock_def revertIndexedBlock_def
      finalizedBlock_def)

text \<open>
  C3: with decoders for the versions v1 and v2 only, a SaveBlock frame of version v3 is
  answered with \<open>ErrInvalidPayloadType\<close>, which is not \<open>ErrInvalidPayloadVersion\<close>, and no
  decoder runs; the same holds on the other two decoded topics. A frame of version v1 is
  handed to the v1 decoder.
\<close>

theorem C3_unknown_version_returns_payload_type_error:
  "ProcessPayload handlerV1V2 ''block'' ''SaveBlock'' ''v3'' [] = (Some ErrInvalidPayloadType, [])
   \<and> ProcessPayload handlerV1V2 ''block'' ''RevertIndexedBlock'' ''v3'' [] = (Some ErrInvalidPayloadType, [])
   \<and> ProcessPayload handlerV1V2 ''block'' ''FinalizedBlock'' ''v3'' [] = (Some ErrInvalidPayloadType, [])
   \<and> fst (ProcessPayload handlerV1V2 ''block'' ''SaveBlock'' ''v3'' []) \<noteq> Some ErrInvalidPayloadVersion
   \<and> ProcessPayload handlerV1V2 ''block'' ''SaveBlock'' ''v1'' [] = (None, [(''v1'', ''SaveBlock'', ''block'')])"
  by (simp add: ProcessPayload_def actions_def Topic_defs saveBlock_def revertIndexedBlock_def
      finalizedBlock_def handlerV1V2_def recordingProcessor_def)

text \<open>
  C7: for a topic that is none of the seven registered ones, \<open>ProcessPayload\<close> returns
  \<open>nil\<close> and leaves the state the decoders work on as it was, whatever the payload, the
  version and the decoder table.
\<close>

theorem C7_unknown_topic_succeeds:
  assumes "topic \<notin> {TopicSaveBlock, TopicRevertIndexedBlock, TopicSaveRoundsInfo,
     TopicSaveValidatorsRating, TopicSaveValidatorsPubKeys, TopicSaveAccounts,
     TopicFinalizedBlock}"
  shows "ProcessPayload ph payload topic version st = (None, st)"
  by (simp add: ProcessPayload_def actions_unknown [OF assms])

theorem C7_unknown_topic_succeeds_witness:
  "''SaveTokens'' \<notin> {TopicSaveBlock, TopicRevertIndexedBlock, TopicSaveRoundsInfo,
     TopicSaveValidatorsRating, TopicSaveValidatorsPubKeys, TopicSaveAccounts,
     TopicFinalizedBlock}
   \<and> ProcessPayload handlerV1V2 ''block'' ''SaveTokens'' ''v1'' [] = (None, [])"
proof -
  have h: "''SaveTokens'' \<notin> {TopicSaveBlock, TopicRevertIndexedBlock, TopicSaveRoundsInfo,
     TopicSaveValidatorsRating, TopicSaveValidatorsPubKeys, TopicSaveAccounts,
     TopicFinalizedBlock}"
    by (simp add: Topic_defs)
  show ?thesis
    using h C7_unknown_topic_succeeds [OF h, of handlerV1V2 "''block''" "''v1''" "[]"]
    by simp
qed

text \<open>
  C10: on each of the four topics SaveRoundsInfo, SaveValidatorsRating,
  SaveValidatorsPubKeys and SaveAccounts, \<open>ProcessPayload\<close> returns \<open>nil\<close> and runs no
  decoder, for every payload, every version string and every decoder table, so also for
  a version the table has no entry for.
\<close>

theorem C10_noop_topics_succeed:
  "ProcessPayload ph payload TopicSaveRoundsInfo version st = (None, st)
   \<and> ProcessPayload ph payload TopicSaveValidatorsRating version st = (None, st)
   \<and> ProcessPayload ph payload TopicSaveValidatorsPubKeys version st = (None, st)
   \<and> ProcessPayload ph payload TopicSaveAccounts version st = (None, st)"
  by (simp add: ProcessPayload_def actions_noop saveRounds_def saveValidatorsRating_def
      saveValidatorsPubKeys_def saveAccounts_def)


section \<open>Properties of the hub\<close>

subsection \<open>The mapper and the map of dispatchers\<close>

lemma subscriptionsFor_RemoveSubscriptions:
  "subscriptionsFor (RemoveSubscriptions m k) k = []"
  by (simp add: subscriptionsFor_def RemoveSubscriptions_def)

lemma Subscriptions_RemoveSubscriptions:
  "filter (\<lambda>s. Subscription.DispatcherID s = k) (Subscriptions (RemoveSubscriptions m k)) = []"
  by (simp add: Subscriptions_def RemoveSubscriptions_def filter_empty_conv)

lemma unregisterDispatcher_fst:
  "dispatchers (fst (unregisterDispatcher wh d)) = (dispatchers wh)(GetID d := None)"
  "subscriptionMapper (fst (unregisterDispatcher wh d)) =
     RemoveSubscriptions (subscriptionMapper wh) (GetID d)"
  "filter_hub (fst (unregisterDispatcher wh d)) = filter_hub wh"
  by (auto simp: unregisterDispatcher_def Let_def split: option.splits)

lemma unregisterDispatcher_snd: "snd (unregisterDispatcher wh d) = d"
  by (simp add: unregisterDispatcher_def Let_def)

text \<open>One turn of the loop is the handler of the channel the message came from.\<close>

lemma run_one_message:
  "run wh [FromBroadcast events] = handleBroadcast wh events"
  "run wh [FromBroadcastRevert revertEvent] = handleRevertBroadcast wh revertEvent"
  "run wh [FromBroadcastFinalized finalizedEvent] = handleFinalizedBroadcast wh finalizedEvent"
  "run wh [FromRegister d] = registerDispatcher wh d"
  "run wh [FromUnregister d] = fst (unregisterDispatcher wh d)"
  "run wh (CtxDone # rest) = wh"
  by simp_all

lemma hubS5_eq:
  "hubS5 =
     \<lparr>filter_hub = MatchEvent,
      subscriptionMapper =
        \<lparr>byDispatcher =
           [1 \<mapsto> [\<lparr>Subscription.DispatcherID = 1, entry = entryOf REVERT_EVENTS\<rparr>],
            2 \<mapsto> [\<lparr>Subscription.DispatcherID = 2, entry = entryOf BLOCK_EVENTS\<rparr>],
            3 \<mapsto> [\<lparr>Subscription.DispatcherID = 3, entry = entryOf FINALIZED_EVENTS\<rparr>,
                  \<lparr>Subscription.DispatcherID = 3, entry = entryOf ALL_EVENTS\<rparr>]],
         all_subs =
           [\<lparr>Subscription.DispatcherID = 1, entry = entryOf REVERT_EVENTS\<rparr>,
            \<lparr>Subscription.DispatcherID = 2, entry = entryOf BLOCK_EVENTS\<rparr>,
            \<lparr>Subscription.DispatcherID = 3, entry = entryOf FINALIZED_EVENTS\<rparr>,
            \<lparr>Subscription.DispatcherID = 3, entry = entryOf ALL_EVENTS\<rparr>]\<rparr>,
      dispatchers = [1 \<mapsto> dispatcherWithID 1, 2 \<mapsto> dispatcherWithID 2, 3 \<mapsto> dispatcherWithID 3]\<rparr>"
  by (simp add: hubS5_def NewCommonHub_def NewSubscriptionMapper_def registerDispatcher_def
      dispatcherWithID_def Subscribe_def MatchSubscribeEvent_def addSubscription_def
      subscriptionsFor_def entryOf_def)

text \<open>
  C1: in the hub with dispatcher 1 registered and subscribed to REVERT_EVENTS and
  dispatcher 3 registered and subscribed to FINALIZED_EVENTS and ALL, the loop handles a
  RevertBlock and a FinalizedBlock without a single call on any dispatcher: the call logs
  of 1 and 3 stay empty and the hub is what it was. Both handlers have empty bodies.
\<close>

theorem C1_revert_and_finalized_not_delivered:
  "dispatchers hubS5 1 = Some (dispatcherWithID 1)
   \<and> \<lparr>Subscription.DispatcherID = 1, entry = entryOf REVERT_EVENTS\<rparr>
         \<in> set (Subscriptions (subscriptionMapper hubS5))
   \<and> map_option calls (dispatchers (run hubS5 [FromBroadcastRevert revertAA]) 1) = Some []
   \<and> map_option calls (dispatchers (run hubS5 [FromBroadcastRevert revertAA]) 3) = Some []
   \<and> map_option calls (dispatchers (run hubS5 [FromBroadcastFinalized finalizedAA]) 3) = Some []
   \<and> run hubS5 [FromBroadcastRevert revertAA] = hubS5
   \<and> run hubS5 [FromBroadcastFinalized finalizedAA] = hubS5"
  by (simp add: hubS5_eq handleRevertBroadcast_def handleFinalizedBroadcast_def
      Subscriptions_def dispatcherWithID_def)

text \<open>
  Unregistering dispatcher 1 from that hub removes its entry and its subscriptions and
  makes no \<open>close\<close> call on it: the claim C2, which has \<open>close\<close> called, fails there.
\<close>

theorem C2_unregister_close_counterexample:
  "\<not> (dispatchers (fst (unregisterDispatcher hubS5 (dispatcherWithID 1))) 1 = None
      \<and> subscriptionsFor (subscriptionMapper (fst (unregisterDispatcher hubS5 (dispatcherWithID 1)))) 1 = []
      \<and> CallClose \<in> set (calls (snd (unregisterDispatcher hubS5 (dispatcherWithID 1)))))"
  by (simp add: unregisterDispatcher_snd dispatcherWithID_def)

text \<open>
  C2 (amended): after \<open>unregisterDispatcher\<close> the dispatcher map is the old one without
  the dispatcher's id, the mapper is the old one after \<open>RemoveSubscriptions\<close> of that id,
  and the dispatcher itself is as it was (the hub calls nothing but \<open>GetID\<close> on it);
  so the id is not a key of the map and the mapper holds no subscription of the id, in
  neither index.
\<close>

theorem C2_unregister_deletes_and_unsubscribes:
  "dispatchers (fst (unregisterDispatcher wh d)) = (dispatchers wh)(GetID d := None)
   \<and> subscriptionMapper (fst (unregisterDispatcher wh d)) =
       RemoveSubscriptions (subscriptionMapper wh) (GetID d)
   \<and> snd (unregisterDispatcher wh d) = d
   \<and> dispatchers (fst (unregisterDispatcher wh d)) (GetID d) = None
   \<and> subscriptionsFor (subscriptionMapper (fst (unregisterDispatcher wh d))) (GetID d) = []
   \<and> filter (\<lambda>s. Subscription.DispatcherID s = GetID d)
         (Subscriptions (subscriptionMapper (fst (unregisterDispatcher wh d)))) = []"
  by (simp add: unregisterDispatcher_fst unregisterDispatcher_snd
      subscriptionsFor_RemoveSubscriptions Subscriptions_RemoveSubscriptions)

text \<open>
  C9: when the dispatcher's id is not a key of the dispatcher map, \<open>unregisterDispatcher\<close>
  leaves the map as it is and still removes the id's subscriptions from the mapper: none
  is left in either index. The example is an id that subscribed without registering.
\<close>

theorem C9_unregister_unsubscribes_unregistered_id:
  assumes "dispatchers wh (GetID d) = None"
  shows "dispatchers (fst (unregisterDispatcher wh d)) = dispatchers wh
   \<and> subscriptionsFor (subscriptionMapper (fst (unregisterDispatcher wh d))) (GetID d) = []
   \<and> filter (\<lambda>s. Subscription.DispatcherID s = GetID d)
         (Subscriptions (subscriptionMapper (fst (unregisterDispatcher wh d)))) = []"
proof -
  from assms have "(dispatchers wh)(GetID d := None) = dispatchers wh"
    by (simp add: fun_upd_idem)
  then show ?thesis
    by (simp add: unregisterDispatcher_fst subscriptionsFor_RemoveSubscriptions
        Subscriptions_RemoveSubscriptions)
qed

theorem C9_unregister_unsubscribes_unregistered_id_witness:
  "dispatchers hubSubscribedOnly (GetID (dispatcherWithID 7)) = None
   \<and> subscriptionsFor (subscriptionMapper hubSubscribedOnly) 7 =
       [\<lparr>Subscription.DispatcherID = 7, entry = entryOf ALL_EVENTS\<rparr>]
   \<and> dispatchers (fst (unregisterDispatcher hubSubscribedOnly (dispatcherWithID 7))) = Map.empty
   \<and> subscriptionsFor
         (subscriptionMapper (fst (unregisterDispatcher hubSubscribedOnly (dispatcherWithID 7)))) 7 = []
   \<and> Subscriptions
         (subscriptionMapper (fst (unregisterDispatcher hubSubscribedOnly (dispatcherWithID 7)))) = []"
proof -
  have h: "dispatchers hubSubscribedOnly (GetID (dispatcherWithID 7)) = None"
    by (simp add: hubSubscribedOnly_def Subscribe_def NewCommonHub_def)
  have s: "subscriptionsFor (subscriptionMapper hubSubscribedOnly) 7 =
      [\<lparr>Subscription.DispatcherID = 7, entry = entryOf ALL_EVENTS\<rparr>]"
    by (simp add: hubSubscribedOnly_def Subscribe_def NewCommonHub_def NewSubscriptionMapper_def
        MatchSubscribeEvent_def addSubscription_def subscriptionsFor_def)
  have e: "dispatchers hubSubscribedOnly = Map.empty"
    by (simp add: hubSubscribedOnly_def Subscribe_def NewCommonHub_def)
  have a: "Subscriptions
      (subscriptionMapper (fst (unregisterDispatcher hubSubscribedOnly (dispatcherWithID 7)))) = []"
    by (simp add: unregisterDispatcher_def hubSubscribedOnly_def Subscribe_def NewCommonHub_def
        NewSubscriptionMapper_def MatchSubscribeEvent_def addSubscription_def subscriptionsFor_def
        RemoveSubscriptions_def Subscriptions_def dispatcherWithID_def)
  show ?thesis
    using h s e a C9_unregister_unsubscribes_unregistered_id [OF h]
    by (simp add: dispatcherWithID_def)
qed

text \<open>
  C6: registering a dispatcher whose id is a key of the map changes nothing in the hub;
  registering one whose id is not a key adds exactly the entry from the id to the
  dispatcher, so a finite map grows by one; registering twice is registering once; and
  when every entry sits under its own dispatcher's id before, it does after.
\<close>

theorem C6_register_idempotent:
  "(dispatchers wh (GetID d) \<noteq> None \<longrightarrow> registerDispatcher wh d = wh)
   \<and> (dispatchers wh (GetID d) = None \<longrightarrow>
        dispatchers (registerDispatcher wh d) = (dispatchers wh)(GetID d \<mapsto> d)
        \<and> subscriptionMapper (registerDispatcher wh d) = subscriptionMapper wh
        \<and> (finite (dom (dispatchers wh)) \<longrightarrow>
             card (dom (dispatchers (registerDispatcher wh d))) = Suc (card (dom (dispatchers wh)))))
   \<and> registerDispatcher (registerDispatcher wh d) d = registerDispatcher wh d
   \<and> ((\<forall>k e. dispatchers wh k = Some e \<longrightarrow> GetID e = k) \<longrightarrow>
        (\<forall>k e. dispatchers (registerDispatcher wh d) k = Some e \<longrightarrow> GetID e = k))"
proof (intro conjI impI)
  assume "dispatchers wh (GetID d) \<noteq> None"
  then show "registerDispatcher wh d = wh"
    by (auto simp: registerDispatcher_def)
next
  assume "dispatchers wh (GetID d) = None"
  then show "dispatchers (registerDispatcher wh d) = (dispatchers wh)(GetID d \<mapsto> d)"
    by (simp add: registerDispatcher_def)
next
  assume "dispatchers wh (GetID d) = None"
  then show "subscriptionMapper (registerDispatcher wh d) = subscriptionMapper wh"
    by (simp add: registerDispatcher_def)
next
  assume n: "dispatchers wh (GetID d) = None" and f: "finite (dom (dispatchers wh))"
  from n have "GetID d \<notin> dom (dispatchers wh)" by auto
  with f n show "card (dom (dispatchers (registerDispatcher wh d))) = Suc (card (dom (dispatchers wh)))"
    by (simp add: registerDispatcher_def)
next
  show "registerDispatcher (registerDispatcher wh d) d = registerDispatcher wh d"
    by (simp add: registerDispatcher_def split: option.splits)
next
  assume "\<forall>k e. dispatchers wh k = Some e \<longrightarrow> GetID e = k"
  then show "\<forall>k e. dispatchers (registerDispatcher wh d) k = Some e \<longrightarrow> GetID e = k"
    by (auto simp: registerDispatcher_def split: option.splits if_splits)
qed

theorem C6_register_idempotent_witness:
  "dispatchers hubOne (GetID \<lparr>GetID = 1, calls = [CallClose]\<rparr>) \<noteq> None
   \<and> registerDispatcher hubOne \<lparr>GetID = 1, calls = [CallClose]\<rparr> = hubOne
   \<and> dispatchers hubOne 1 = Some (dispatcherWithID 1)
   \<and> dispatchers hubOne (GetID (dispatcherWithID 2)) = None
   \<and> finite (dom (dispatchers hubOne))
   \<and> card (dom (dispatchers hubOne)) = 1
   \<and> card (dom (dispatchers (registerDispatcher hubOne (dispatcherWithID 2)))) = 2
   \<and> dispatchers (registerDispatcher hubOne (dispatcherWithID 2)) 2 = Some (dispatcherWithID 2)"
proof -
  have d: "dispatchers hubOne = [1 \<mapsto> dispatcherWithID 1]"
    by (simp add: hubOne_def NewCommonHub_def registerDispatcher_def dispatcherWithID_def)
  have p: "dispatchers hubOne (GetID \<lparr>GetID = 1, calls = [CallClose]\<rparr>) \<noteq> None"
    by (simp add: d)
  have a: "dispatchers hubOne (GetID (dispatcherWithID 2)) = None"
    by (simp add: d dispatcherWithID_def)
  have f: "finite (dom (dispatchers hubOne))"
    by (simp add: d)
  have c: "card (dom (dispatchers hubOne)) = 1"
    by (simp add: d)
  from C6_register_idempotent [of hubOne "\<lparr>GetID = 1, calls = [CallClose]\<rparr>"] p
  have 1: "registerDispatcher hubOne \<lparr>GetID = 1, calls = [CallClose]\<rparr> = hubOne"
    by blast
  from C6_register_idempotent [of hubOne "dispatcherWithID 2"] a f
  have 2: "dispatchers (registerDispatcher hubOne (dispatcherWithID 2)) =
        (dispatchers hubOne)(GetID (dispatcherWithID 2) \<mapsto> dispatcherWithID 2)"
    and 3: "card (dom (dispatchers (registerDispatcher hubOne (dispatcherWithID 2)))) =
        Suc (card (dom (dispatchers hubOne)))"
    by blast+
  show ?thesis
    using p a f c 1 2 3 by (simp add: d dispatcherWithID_def)
qed

subsection \<open>The loops of handleBroadcast\<close>

lemma slice_of_mapEvent:
  "slice_of (mapEventToDispatcher dm k e) k' = (if k' = k then slice_of dm k @ [e] else slice_of dm k')"
  by (simp add: slice_of_def mapEventToDispatcher_def)

lemma none_mapEvent:
  "mapEventToDispatcher dm k e k' = None \<longleftrightarrow> k' \<noteq> k \<and> dm k' = None"
  by (simp add: mapEventToDispatcher_def)

lemma slice_of_subscriptionsLoop:
  "slice_of (subscriptionsLoop f e subs dm) k =
     slice_of dm k @ map (\<lambda>s. e) (filter (\<lambda>s. Subscription.DispatcherID s = k \<and> f s e) subs)"
  by (induction subs arbitrary: dm) (auto simp: slice_of_mapEvent)

lemma none_subscriptionsLoop:
  "subscriptionsLoop f e subs dm k = None \<longleftrightarrow>
     dm k = None \<and> filter (\<lambda>s. Subscription.DispatcherID s = k \<and> f s e) subs = []"
  by (induction subs arbitrary: dm) (auto simp: none_mapEvent)

lemma slice_of_eventsLoop:
  "slice_of (eventsLoop f subs events dm) k = slice_of dm k @ matchedCopies f subs k events"
  by (induction events arbitrary: dm) (auto simp: matchedCopies_def slice_of_subscriptionsLoop)

lemma none_eventsLoop:
  "eventsLoop f subs events dm k = None \<longleftrightarrow> dm k = None \<and> matchedCopies f subs k events = []"
  by (induction events arbitrary: dm) (auto simp: matchedCopies_def none_subscriptionsLoop)

lemma eventsLoop_empty:
  "eventsLoop f subs events Map.empty k =
     (if matchedCopies f subs k events = [] then None else Some (matchedCopies f subs k events))"
proof (cases "eventsLoop f subs events Map.empty k")
  case None
  then show ?thesis by (simp add: none_eventsLoop)
next
  case (Some es)
  have a: "slice_of (eventsLoop f subs events Map.empty) k =
      slice_of Map.empty k @ matchedCopies f subs k events"
    by (rule slice_of_eventsLoop)
  have b: "slice_of Map.empty k = []"
    by (simp add: slice_of_def)
  have c: "slice_of (eventsLoop f subs events Map.empty) k = es"
    using Some by (simp add: slice_of_def)
  from a b c have "es = matchedCopies f subs k events" by simp
  moreover from Some have "matchedCopies f subs k events \<noteq> []"
    using none_eventsLoop [of f subs events Map.empty k] by auto
  ultimately show ?thesis using Some by simp
qed

lemma count_matchedCopies:
  "count_list (matchedCopies f subs k events) e =
     count_list events e * length (filter (\<lambda>s. Subscription.DispatcherID s = k \<and> f s e) subs)"
proof (induction events)
  case Nil
  then show ?case by (simp add: matchedCopies_def)
next
  case (Cons a events)
  have c: "count_list (map (\<lambda>s. a) xs) e = (if a = e then length xs else 0)" for xs :: "Subscription list"
    by (induction xs) auto
  from Cons show ?case
    by (auto simp: matchedCopies_def c)
qed

text \<open>
  The range over \<open>dispatchersMap\<close>: whatever order the keys come in, each once, the
  loop ends in \<open>pushAll\<close>.
\<close>

lemma pushOne_other: "k' \<noteq> k \<Longrightarrow> pushOne dm k ds k' = ds k'"
  by (simp add: pushOne_def split: option.splits)

lemma pushOne_same: "pushOne dm k ds k = pushAll dm ds k"
  by (simp add: pushOne_def pushAll_def split: option.splits)

lemma pushRange_notin: "k \<notin> set ids \<Longrightarrow> pushRange dm ids ds k = ds k"
  by (induction ids arbitrary: ds) (auto simp: pushOne_other)

lemma pushRange_in:
  "distinct ids \<Longrightarrow> k \<in> set ids \<Longrightarrow> pushRange dm ids ds k = pushAll dm ds k"
proof (induction ids arbitrary: ds)
  case Nil
  then show ?case by simp
next
  case (Cons a ids)
  show ?case
  proof (cases "k = a")
    case True
    with Cons.prems have "k \<notin> set ids" by simp
    then show ?thesis using True by (simp add: pushRange_notin pushOne_same)
  next
    case False
    with Cons.prems have "k \<in> set ids" "distinct ids" by simp_all
    then have "pushRange dm ids (pushOne dm a ds) k = pushAll dm (pushOne dm a ds) k"
      by (rule Cons.IH [rotated])
    also have "\<dots> = pushAll dm ds k"
      using False by (simp add: pushAll_def pushOne_other)
    finally show ?thesis by simp
  qed
qed

lemma pushRange_any_order:
  assumes "distinct ids" and "set ids = dom dm"
  shows "pushRange dm ids ds = pushAll dm ds"
proof
  fix k
  show "pushRange dm ids ds k = pushAll dm ds k"
  proof (cases "k \<in> set ids")
    case True
    then show ?thesis using assms(1) by (simp add: pushRange_in)
  next
    case False
    with assms(2) have "dm k = None" by auto
    then have "pushAll dm ds k = ds k" by (simp add: pushAll_def split: option.splits)
    with False show ?thesis by (simp add: pushRange_notin)
  qed
qed

lemma dispatchers_handleBroadcast:
  "dispatchers (handleBroadcast wh b) k =
     (case dispatchers wh k of
        None \<Rightarrow> None
      | Some d \<Rightarrow>
          Some (if matchedCopies (filter_hub wh) (Subscriptions (subscriptionMapper wh)) k (Events b) = []
                then d
                else PushEvents d
                  (matchedCopies (filter_hub wh) (Subscriptions (subscriptionMapper wh)) k (Events b))))"
  by (simp add: handleBroadcast_def Let_def pushAll_def eventsLoop_empty split: option.splits)

lemma hubOverlap_fields:
  "filter_hub hubOverlap = MatchEvent"
  "Subscriptions (subscriptionMapper hubOverlap) =
     [\<lparr>Subscription.DispatcherID = 1, entry = entryOf ALL_EVENTS\<rparr>,
      \<lparr>Subscription.DispatcherID = 1, entry = (entryOf BLOCK_EVENTS)\<lparr>Address := Some ''erd1x''\<rparr>\<rparr>,
      \<lparr>Subscription.DispatcherID = 2, entry = (entryOf ALL_EVENTS)\<lparr>Address := Some ''erd1y''\<rparr>\<rparr>]"
  "dispatchers hubOverlap = [1 \<mapsto> dispatcherWithID 1, 2 \<mapsto> dispatcherWithID 2]"
  by (simp_all add: hubOverlap_def NewCommonHub_def NewSubscriptionMapper_def registerDispatcher_def
      dispatcherWithID_def Subscribe_def MatchSubscribeEvent_def addSubscription_def
      subscriptionsFor_def entryOf_def Subscriptions_def)

lemma handleBroadcast_hubOverlap:
  "dispatchers (handleBroadcast hubOverlap batchXY) 1 =
     Some \<lparr>GetID = 1, calls = [CallPushEvents [eventX, eventX, eventY]]\<rparr>"
  "dispatchers (handleBroadcast hubOverlap batchXY) 2 =
     Some \<lparr>GetID = 2, calls = [CallPushEvents [eventY]]\<rparr>"
  "dispatchers (handleBroadcast hubOverlap batchXY) 3 = None"
  by (simp_all add: handleBroadcast_def Let_def hubOverlap_fields batchXY_def eventX_def eventY_def
      MatchEvent_def entryOf_def mapEventToDispatcher_def pushAll_def PushEvents_def
      dispatcherWithID_def)

text \<open>
  C4: the list \<open>handleBroadcast\<close> builds for a dispatcher id is the list of matched
  copies (and the id has no list when there is none); an event occurs in it as many
  times as it occurs in the batch, times the number of the id's subscriptions that match
  it, hence not at all when none matches and twice when two match. A dispatcher found
  under the id gets that list in one \<open>PushEvents\<close> call, or no call when the id has no
  list; an id that is not a key of the dispatcher map stays absent, its list dropped.
  The mapper and the filter are untouched.
\<close>

theorem C4_one_copy_per_matching_subscription:
  "eventsLoop (filter_hub wh) (Subscriptions (subscriptionMapper wh)) (Events b) Map.empty k =
     (if matchedCopies (filter_hub wh) (Subscriptions (subscriptionMapper wh)) k (Events b) = []
      then None
      else Some (matchedCopies (filter_hub wh) (Subscriptions (subscriptionMapper wh)) k (Events b)))
   \<and> count_list (matchedCopies (filter_hub wh) (Subscriptions (subscriptionMapper wh)) k (Events b)) e =
       count_list (Events b) e *
       length (filter (\<lambda>s. Subscription.DispatcherID s = k \<and> filter_hub wh s e)
                 (Subscriptions (subscriptionMapper wh)))
   \<and> dispatchers (handleBroadcast wh b) k =
       (case dispatchers wh k of
          None \<Rightarrow> None
        | Some d \<Rightarrow>
            Some (if matchedCopies (filter_hub wh) (Subscriptions (subscriptionMapper wh)) k (Events b) = []
                  then d
                  else PushEvents d
                    (matchedCopies (filter_hub wh) (Subscriptions (subscriptionMapper wh)) k (Events b))))
   \<and> subscriptionMapper (handleBroadcast wh b) = subscriptionMapper wh
   \<and> filter_hub (handleBroadcast wh b) = filter_hub wh"
proof -
  have "subscriptionMapper (handleBroadcast wh b) = subscriptionMapper wh"
    and "filter_hub (handleBroadcast wh b) = filter_hub wh"
    by (simp_all add: handleBroadcast_def Let_def)
  then show ?thesis
    by (simp only: eventsLoop_empty count_matchedCopies dispatchers_handleBroadcast simp_thms)
qed

subsection \<open>Order within a batch\<close>

lemma matchedCopies_Nil: "matchedCopies f subs k [] = []"
  by (simp add: matchedCopies_def)

lemma matchedCopies_Cons:
  "matchedCopies f subs k (e # es) = replicate (copiesFor f subs k e) e @ matchedCopies f subs k es"
  by (simp add: matchedCopies_def copiesFor_def map_replicate_const)

lemma matchedCopies_snoc:
  "matchedCopies f subs k (es @ [e]) = matchedCopies f subs k es @ replicate (copiesFor f subs k e) e"
  by (simp add: matchedCopies_def copiesFor_def map_replicate_const)

lemma remdups_adj_replicate_append:
  "0 < n \<Longrightarrow> remdups_adj (replicate n e @ xs) = remdups_adj (e # xs)"
proof (induction n)
  case 0
  then show ?case by simp
next
  case (Suc m)
  show ?case
  proof (cases m)
    case 0
    then show ?thesis by simp
  next
    case (Suc j)
    with Suc.IH have "remdups_adj (replicate m e @ xs) = remdups_adj (e # xs)" by simp
    moreover have "remdups_adj (replicate (Suc m) e @ xs) = remdups_adj (replicate m e @ xs)"
      using Suc by simp
    ultimately show ?thesis by simp
  qed
qed

lemma subseq_remdups_adj_matchedCopies:
  "subseq (remdups_adj (matchedCopies f subs k es)) es"
proof (induction es)
  case Nil
  then show ?case by (simp add: matchedCopies_Nil)
next
  case (Cons e es)
  let ?M = "matchedCopies f subs k es"
  show ?case
  proof (cases "copiesFor f subs k e = 0")
    case True
    then have "matchedCopies f subs k (e # es) = ?M"
      by (simp add: matchedCopies_Cons)
    with Cons.IH show ?thesis by auto
  next
    case False
    then have r: "remdups_adj (matchedCopies f subs k (e # es)) = remdups_adj (e # ?M)"
      by (simp add: matchedCopies_Cons remdups_adj_replicate_append)
    show ?thesis
    proof (cases ?M)
      case Nil
      with r show ?thesis by simp
    next
      case (Cons y ys)
      show ?thesis
      proof (cases "e = y")
        case True
        with Cons r have "remdups_adj (matchedCopies f subs k (e # es)) = remdups_adj ?M"
          by simp
        with Cons.IH show ?thesis
          using \<open>subseq (remdups_adj ?M) es\<close> by auto
      next
        case False
        with Cons r have "remdups_adj (matchedCopies f subs k (e # es)) = e # remdups_adj ?M"
          by simp
        then show ?thesis
          using \<open>subseq (remdups_adj ?M) es\<close> by simp
      qed
    qed
  qed
qed

lemma matchedCopies_positions:
  "\<exists>idxs. sorted idxs \<and> list_all (\<lambda>i. i < length es) idxs
     \<and> matchedCopies f subs k es = map (nth es) idxs"
proof (induction es rule: rev_induct)
  case Nil
  have "sorted ([]::nat list) \<and> list_all (\<lambda>i. i < length ([]::data_Event list)) []
      \<and> matchedCopies f subs k [] = map (nth []) []"
    by (simp add: matchedCopies_Nil)
  then show ?case by blast
next
  case (snoc e es)
  then obtain idxs where s: "sorted idxs" and b: "list_all (\<lambda>i. i < length es) idxs"
    and m: "matchedCopies f subs k es = map (nth es) idxs"
    by blast
  let ?n = "copiesFor f subs k e"
  let ?idxs = "idxs @ replicate ?n (length es)"
  from b have lt: "\<And>i. i \<in> set idxs \<Longrightarrow> i < length es"
    by (simp add: list_all_iff)
  have 1: "sorted ?idxs"
    using s lt by (auto simp: sorted_append dest: less_imp_le)
  have 2: "list_all (\<lambda>i. i < length (es @ [e])) ?idxs"
    using lt by (auto simp: list_all_iff dest: less_SucI)
  have "map (nth (es @ [e])) idxs = map (nth es) idxs"
    using lt by (simp add: nth_append)
  moreover have "map (nth (es @ [e])) (replicate ?n (length es)) = replicate ?n e"
    by simp
  ultimately have 3: "matchedCopies f subs k (es @ [e]) = map (nth (es @ [e])) ?idxs"
    by (simp add: matchedCopies_snoc m)
  from 1 2 3 show ?case by blast
qed

lemma positions_keep_order:
  assumes "sorted idxs" and "list_all (\<lambda>i. i < length es) idxs" and "distinct es"
    and "i < j" and "j < length es" and "p < length idxs" and "q < length idxs"
    and "map (nth es) idxs ! p = es ! j" and "map (nth es) idxs ! q = es ! i"
  shows "q < p"
proof (rule ccontr)
  assume "\<not> q < p"
  then have "p \<le> q" by simp
  with assms(1,7) have le: "idxs ! p \<le> idxs ! q"
    by (simp add: sorted_nth_mono)
  from assms(2,6,7) have b: "idxs ! p < length es" "idxs ! q < length es"
    by (simp_all add: list_all_length)
  from assms(8) assms(6) have "es ! (idxs ! p) = es ! j" by simp
  with assms(3,5) b have "idxs ! p = j" by (simp add: nth_eq_iff_index_eq)
  moreover from assms(9) assms(7) have "es ! (idxs ! q) = es ! i" by simp
  with assms(3,4,5) b have "idxs ! q = i" by (simp add: nth_eq_iff_index_eq)
  ultimately show False using le assms(4) by simp
qed

lemma matchedCopies_keep_order:
  assumes "distinct es" and "i < j" and "j < length es"
    and "p < length (matchedCopies f subs k es)" and "q < length (matchedCopies f subs k es)"
    and "matchedCopies f subs k es ! p = es ! j" and "matchedCopies f subs k es ! q = es ! i"
  shows "q < p"
proof -
  obtain idxs where s: "sorted idxs" and b: "list_all (\<lambda>i. i < length es) idxs"
    and m: "matchedCopies f subs k es = map (nth es) idxs"
    using matchedCopies_positions by blast
  from assms(4,5) m have "p < length idxs" "q < length idxs" by simp_all
  with s b assms m show ?thesis
    using positions_keep_order [of idxs es i j p q] by simp
qed

lemma pushed_is_matchedCopies:
  assumes "dispatchers wh k = Some d" and "dispatchers (handleBroadcast wh b) k = Some d'"
    and "calls d' = calls d @ [CallPushEvents delivered]"
  shows "delivered = matchedCopies (filter_hub wh) (Subscriptions (subscriptionMapper wh)) k (Events b)"
proof -
  let ?M = "matchedCopies (filter_hub wh) (Subscriptions (subscriptionMapper wh)) k (Events b)"
  from assms(1,2) have d': "d' = (if ?M = [] then d else PushEvents d ?M)"
    by (simp add: dispatchers_handleBroadcast)
  show ?thesis
  proof (cases "?M = []")
    case True
    with d' assms(3) show ?thesis by simp
  next
    case False
    with d' assms(3) show ?thesis by (simp add: PushEvents_def)
  qed
qed

text \<open>
  C5: let \<open>delivered\<close> be the list \<open>handleBroadcast\<close> pushes to the dispatcher under an
  id for a batch. With repeated neighbours merged it is a subsequence of the batch's
  events; it reads the batch at positions that never decrease; and when the events of
  the batch are distinct, an event at a later position of the batch never comes before
  an event at an earlier position.
\<close>

theorem C5_batch_order_preserved:
  assumes "dispatchers wh k = Some d" and "dispatchers (handleBroadcast wh b) k = Some d'"
    and "calls d' = calls d @ [CallPushEvents delivered]"
  shows "subseq (remdups_adj delivered) (Events b)
   \<and> (\<exists>idxs. sorted idxs \<and> list_all (\<lambda>i. i < length (Events b)) idxs
        \<and> delivered = map (nth (Events b)) idxs)
   \<and> (distinct (Events b) \<longrightarrow>
        (\<forall>i j p q. i < j \<and> j < length (Events b) \<and> p < length delivered \<and> q < length delivered
           \<and> delivered ! p = Events b ! j \<and> delivered ! q = Events b ! i \<longrightarrow> q < p))"
proof -
  have eq: "delivered =
      matchedCopies (filter_hub wh) (Subscriptions (subscriptionMapper wh)) k (Events b)"
    using assms by (rule pushed_is_matchedCopies)
  have 1: "subseq (remdups_adj delivered) (Events b)"
    unfolding eq by (rule subseq_remdups_adj_matchedCopies)
  have 2: "\<exists>idxs. sorted idxs \<and> list_all (\<lambda>i. i < length (Events b)) idxs
        \<and> delivered = map (nth (Events b)) idxs"
    unfolding eq by (rule matchedCopies_positions)
  have 3: "distinct (Events b) \<longrightarrow>
        (\<forall>i j p q. i < j \<and> j < length (Events b) \<and> p < length delivered \<and> q < length delivered
           \<and> delivered ! p = Events b ! j \<and> delivered ! q = Events b ! i \<longrightarrow> q < p)"
    unfolding eq using matchedCopies_keep_order by blast
  from 1 2 3 show ?thesis by blast
qed

theorem C5_batch_order_preserved_witness:
  "dispatchers hubOverlap 1 = Some (dispatcherWithID 1)
   \<and> dispatchers (handleBroadcast hubOverlap batchXY) 1 =
       Some \<lparr>GetID = 1, calls = [CallPushEvents [eventX, eventX, eventY]]\<rparr>
   \<and> calls \<lparr>GetID = 1, calls = [CallPushEvents [eventX, eventX, eventY]]\<rparr> =
       calls (dispatcherWithID 1) @ [CallPushEvents [eventX, eventX, eventY]]
   \<and> distinct (Events batchXY)
   \<and> subseq (remdups_adj [eventX, eventX, eventY]) (Events batchXY)
   \<and> (\<exists>idxs. sorted idxs \<and> list_all (\<lambda>i. i < length (Events batchXY)) idxs
        \<and> [eventX, eventX, eventY] = map (nth (Events batchXY)) idxs)"
proof -
  have h1: "dispatchers hubOverlap 1 = Some (dispatcherWithID 1)"
    by (simp add: hubOverlap_fields)
  have h2: "dispatchers (handleBroadcast hubOverlap batchXY) 1 =
       Some \<lparr>GetID = 1, calls = [CallPushEvents [eventX, eventX, eventY]]\<rparr>"
    by (rule handleBroadcast_hubOverlap)
  have h3: "calls \<lparr>GetID = 1, calls = [CallPushEvents [eventX, eventX, eventY]]\<rparr> =
       calls (dispatcherWithID 1) @ [CallPushEvents [eventX, eventX, eventY]]"
    by (simp add: dispatcherWithID_def)
  have h4: "distinct (Events batchXY)"
    by (simp add: batchXY_def eventX_def eventY_def)
  from C5_batch_order_preserved [OF h1 h2 h3] h1 h2 h3 h4 show ?thesis
    by blast
qed

section \<open>Properties of the publisher\<close>

lemma published_publishFanout:
  "published (client (snd (publishFanout rp exchangeName payload))) =
     published (client rp) @
       [\<lparr>exchange = exchangeName, key = '''', mandatory = True, immediate = False,
         msg = \<lparr>Body = payload\<rparr>\<rparr>]"
  "cfg (snd (publishFanout rp exchangeName payload)) = cfg rp"
  by (simp_all add: publishFanout_def Publish_def Let_def emptyStr_def)

lemma marshal_failure_publishes_nothing:
  "marshalEvents events = Inl err \<Longrightarrow> publishToExchanges marshalEvents rp events = rp"
  "marshalRevert revertBlock = Inl err \<Longrightarrow> publishRevertToExchange marshalRevert rp revertBlock = rp"
  "marshalFinalized finalizedBlockMsg = Inl err \<Longrightarrow>
     publishFinalizedToExchange marshalFinalized rp finalizedBlockMsg = rp"
  by (simp_all add: publishToExchanges_def publishRevertToExchange_def publishFinalizedToExchange_def)

text \<open>
  C8: for each of the three streams, with an empty exchange name the publisher is left
  as it was (no \<open>Publish\<close> call); with a non-empty one and a payload the encoder
  serialises, exactly one \<open>Publish\<close> call is added: to that exchange, with the empty
  routing key, mandatory set, immediate not set, and the serialised bytes as body.
\<close>

theorem C8_publish_per_stream:
  "(EventsExchange (cfg rp) = '''' \<longrightarrow> publishToExchanges marshalEvents rp events = rp)
   \<and> (EventsExchange (cfg rp) \<noteq> '''' \<and> marshalEvents events = Inr eventsBytes \<longrightarrow>
        published (client (publishToExchanges marshalEvents rp events)) =
          published (client rp) @
            [\<lparr>exchange = EventsExchange (cfg rp), key = '''', mandatory = True, immediate = False,
              msg = \<lparr>Body = eventsBytes\<rparr>\<rparr>])
   \<and> (RevertEventsExchange (cfg rp) = '''' \<longrightarrow>
        publishRevertToExchange marshalRevert rp revertBlock = rp)
   \<and> (RevertEventsExchange (cfg rp) \<noteq> '''' \<and> marshalRevert revertBlock = Inr revertBlockBytes \<longrightarrow>
        published (client (publishRevertToExchange marshalRevert rp revertBlock)) =
          published (client rp) @
            [\<lparr>exchange = RevertEventsExchange (cfg rp), key = '''', mandatory = True,
              immediate = False, msg = \<lparr>Body = revertBlockBytes\<rparr>\<rparr>])
   \<and> (FinalizedEventsExchange (cfg rp) = '''' \<longrightarrow>
        publishFinalizedToExchange marshalFinalized rp finalizedBlockMsg = rp)
   \<and> (FinalizedEventsExchange (cfg rp) \<noteq> '''' \<and> marshalFinalized finalizedBlockMsg = Inr finalizedBlockBytes \<longrightarrow>
        published (client (publishFinalizedToExchange marshalFinalized rp finalizedBlockMsg)) =
          published (client rp) @
            [\<lparr>exchange = FinalizedEventsExchange (cfg rp), key = '''', mandatory = True,
              immediate = False, msg = \<lparr>Body = finalizedBlockBytes\<rparr>\<rparr>])"
  by (simp add: publishToExchanges_def publishRevertToExchange_def publishFinalizedToExchange_def
      published_publishFanout)

theorem C8_publish_per_stream_witness:
  "EventsExchange (cfg publisherTwoStreams) \<noteq> ''''
   \<and> hashBody (data_BlockEvents.Hash batchXY) = Inr ''{hash:0xaa}''
   \<and> published (client (publishToExchanges (\<lambda>b. hashBody (data_BlockEvents.Hash b))
         publisherTwoStreams batchXY)) =
        [\<lparr>exchange = ''all_events'', key = '''', mandatory = True, immediate = False,
          msg = \<lparr>Body = ''{hash:0xaa}''\<rparr>\<rparr>]
   \<and> RevertEventsExchange (cfg publisherTwoStreams) = ''''
   \<and> publishRevertToExchange (\<lambda>b. hashBody (data_RevertBlock.Hash b)) publisherTwoStreams revertAA =
        publisherTwoStreams
   \<and> FinalizedEventsExchange (cfg publisherTwoStreams) \<noteq> ''''
   \<and> published (client (publishFinalizedToExchange (\<lambda>b. hashBody (data_FinalizedBlock.Hash b))
         publisherTwoStreams finalizedAA)) =
        [\<lparr>exchange = ''finalized_events'', key = '''', mandatory = True, immediate = False,
          msg = \<lparr>Body = ''{hash:0xaa}''\<rparr>\<rparr>]"
proof -
  have e: "EventsExchange (cfg publisherTwoStreams) \<noteq> ''''"
    and r: "RevertEventsExchange (cfg publisherTwoStreams) = ''''"
    and f: "FinalizedEventsExchange (cfg publisherTwoStreams) \<noteq> ''''"
    by (simp_all add: publisherTwoStreams_def)
  have m1: "hashBody (data_BlockEvents.Hash batchXY) = Inr ''{hash:0xaa}''"
    and m3: "hashBody (data_FinalizedBlock.Hash finalizedAA) = Inr ''{hash:0xaa}''"
    by (simp_all add: hashBody_def batchXY_def finalizedAA_def)
  have p: "published (client publisherTwoStreams) = []"
    and x: "EventsExchange (cfg publisherTwoStreams) = ''all_events''"
    and y: "FinalizedEventsExchange (cfg publisherTwoStreams) = ''finalized_events''"
    by (simp_all add: publisherTwoStreams_def)
  note inst = C8_publish_per_stream [of publisherTwoStreams
      "\<lambda>b. hashBody (data_BlockEvents.Hash b)" batchXY "''{hash:0xaa}''"
      "\<lambda>b. hashBody (data_RevertBlock.Hash b)" revertAA
      "''{hash:0xaa}''"
      "\<lambda>b. hashBody (data_FinalizedBlock.Hash b)" finalizedAA "''{hash:0xaa}''"]
  from inst e r f m1 m3 show ?thesis
    by (simp add: p x y)
qed

end
